theory Spec2Isabelle
  imports Complex_Main "HOL-Library.Multiset"
begin

section \<open>JavaScript primitives\<close>

text \<open>
  A JavaScript number is an IEEE 754 double: a rational number that the binary64
  format represents, NaN, or an infinity. The two zeros are one value here; none of the
  modelled operations tells them apart. The numbers a caller hands to the queue
  (\<^verbatim>\<open>setConcurrency\<close>, \<^verbatim>\<open>setTimeout\<close>) and the fields they write are such numbers. The
  counts and epoch milliseconds of a job are integers.
\<close>

datatype js_number = Finite rat | NaN | PosInfinity | NegInfinity

text \<open>What a call can throw: a RangeError of the runtime, or an error of user code.\<close>

datatype error = RangeError | Thrown string

text \<open>
  Rounding a rational to the nearest double, ties to the even significand. \<open>binade a\<close>
  is the exponent \<open>e\<close> with \<open>2^e \<le> a < 2^(e+1)\<close>, found by bisection from the
  smallest normal exponent \<open>-1022\<close> (which also serves the subnormal numbers) up to
  \<open>1025\<close>; the doubles of that binade are the multiples of \<open>2^(e-52)\<close>. An exponent
  above \<open>1023\<close>, or a rounded value of \<open>2^1024\<close>, is an infinity.
\<close>

definition pow2 :: "int \<Rightarrow> rat" where
  "pow2 e = power_int 2 e"

fun binadeSearch :: "rat \<Rightarrow> int \<Rightarrow> nat \<Rightarrow> int" where
  "binadeSearch a lo 0 = lo"
| "binadeSearch a lo (Suc k) =
     (if a < pow2 (lo + 2 ^ k) then binadeSearch a lo k
      else binadeSearch a (lo + 2 ^ k) k)"

definition binade :: "rat \<Rightarrow> int" where
  "binade a = binadeSearch a (- 1022) 11"

definition roundHalfEven :: "rat \<Rightarrow> int" where
  "roundHalfEven x =
     (let n = \<lfloor>x\<rfloor>; f = x - of_int n
      in if f < 1 / 2 then n else if 1 / 2 < f then n + 1 else if even n then n else n + 1)"

definition toDouble :: "rat \<Rightarrow> js_number" where
  "toDouble x =
     (let a = \<bar>x\<bar>; e = binade a
      in if 1024 \<le> e then (if x < 0 then NegInfinity else PosInfinity)
         else
           (let ulp = pow2 (e - 52); m = roundHalfEven (a / ulp)
            in if pow2 1024 \<le> of_int m * ulp
               then (if x < 0 then NegInfinity else PosInfinity)
               else Finite (sgn x * of_int m * ulp)))"

text \<open>The product of two numbers: the exact product, rounded.\<close>

fun js_times :: "js_number \<Rightarrow> js_number \<Rightarrow> js_number" where
  "js_times NaN y = NaN"
| "js_times x NaN = NaN"
| "js_times (Finite a) (Finite b) = toDouble (a * b)"
| "js_times (Finite a) PosInfinity =
     (if a = 0 then NaN else if 0 < a then PosInfinity else NegInfinity)"
| "js_times (Finite a) NegInfinity =
     (if a = 0 then NaN else if 0 < a then NegInfinity else PosInfinity)"
| "js_times PosInfinity (Finite b) =
     (if b = 0 then NaN else if 0 < b then PosInfinity else NegInfinity)"
| "js_times NegInfinity (Finite b) =
     (if b = 0 then NaN else if 0 < b then NegInfinity else PosInfinity)"
| "js_times PosInfinity PosInfinity = PosInfinity"
| "js_times PosInfinity NegInfinity = NegInfinity"
| "js_times NegInfinity PosInfinity = NegInfinity"
| "js_times NegInfinity NegInfinity = PosInfinity"

text \<open>The comparison \<^verbatim>\<open>x < y\<close>; \<^verbatim>\<open>x > y\<close> is \<^verbatim>\<open>y < x\<close>. Any comparison with NaN is false.\<close>

fun js_less :: "js_number \<Rightarrow> js_number \<Rightarrow> bool" where
  "js_less (Finite a) (Finite b) = (a < b)"
| "js_less (Finite a) PosInfinity = True"
| "js_less NegInfinity (Finite b) = True"
| "js_less NegInfinity PosInfinity = True"
| "js_less x y = False"

text \<open>
  A number is falsy when it is zero or NaN, and \<^verbatim>\<open>x || y\<close> is \<open>x\<close> unless \<open>x\<close> is falsy.
  \<^verbatim>\<open>Math.trunc\<close> rounds towards zero.
\<close>

definition truthy :: "js_number \<Rightarrow> bool" where
  "truthy x = (case x of Finite r \<Rightarrow> r \<noteq> 0 | NaN \<Rightarrow> False | PosInfinity \<Rightarrow> True
               | NegInfinity \<Rightarrow> True)"

definition js_or :: "js_number \<Rightarrow> js_number \<Rightarrow> js_number" where
  "js_or x y = (if truthy x then x else y)"

definition Math_trunc :: "js_number \<Rightarrow> js_number" where
  "Math_trunc x =
     (case x of
        Finite r \<Rightarrow> Finite (of_int (if r < 0 then \<lceil>r\<rceil> else \<lfloor>r\<rfloor>))
      | NaN \<Rightarrow> NaN
      | PosInfinity \<Rightarrow> PosInfinity
      | NegInfinity \<Rightarrow> NegInfinity)"

text \<open>\<^verbatim>\<open>indexOf\<close> gives the first position of the element, or \<open>-1\<close>.\<close>

fun indexOf :: "'a list \<Rightarrow> 'a \<Rightarrow> int" where
  "indexOf [] x = - 1"
| "indexOf (y # ys) x =
     (if y = x then 0 else (let i = indexOf ys x in if i = - 1 then - 1 else i + 1))"

text \<open>
  \<^verbatim>\<open>splice(start, deleteCount)\<close>: a negative start counts from the end (and stops at
  0), a start beyond the end is the end; at most the remaining elements are deleted.
\<close>

definition splice_js :: "'a list \<Rightarrow> int \<Rightarrow> nat \<Rightarrow> 'a list" where
  "splice_js xs start deleteCount =
     (let len = int (length xs);
          s = nat (if start < 0 then max (len + start) 0 else min start len)
      in take s xs @ drop (s + deleteCount) xs)"

text \<open>
  The assignment \<^verbatim>\<open>array.length = n\<close>. It raises a RangeError unless \<open>n\<close> is a whole
  number from 0 to \<open>2^32 - 1\<close>. The queue only uses it to shorten an array (a larger
  length would add empty slots, which a list cannot hold).
\<close>

definition setLength :: "'a list \<Rightarrow> js_number \<Rightarrow> error + 'a list" where
  "setLength xs n =
     (case n of
        Finite r \<Rightarrow>
          if r = of_int \<lfloor>r\<rfloor> \<and> 0 \<le> r \<and> r \<le> 4294967295 then Inr (take (nat \<lfloor>r\<rfloor>) xs)
          else Inl RangeError
      | NaN \<Rightarrow> Inl RangeError
      | PosInfinity \<Rightarrow> Inl RangeError
      | NegInfinity \<Rightarrow> Inl RangeError)"

text \<open>
  The whole milliseconds a Node.js timer really waits: a delay that is not a number
  from 1 to \<open>2^31 - 1\<close> is replaced by 1, and a fraction of a millisecond is dropped.
\<close>

definition timerDelay :: "js_number \<Rightarrow> int" where
  "timerDelay ms =
     (case ms of
        Finite r \<Rightarrow> if r < 1 \<or> r > 2147483647 then 1 else \<lfloor>r\<rfloor>
      | NaN \<Rightarrow> 1
      | PosInfinity \<Rightarrow> 1
      | NegInfinity \<Rightarrow> 1)"


section \<open>Jobs (src/src/baseJob.ts)\<close>

text \<open>
  A job is a mutable JavaScript object that the producer and the queue share, and
  \<^verbatim>\<open>Array.prototype.indexOf\<close> compares jobs by object identity. Jobs are therefore
  kept in an object store: a job reference is an address, the store maps it to the
  fields of \<^verbatim>\<open>BaseJob\<close>. The id, the queue name and the payload take no part in
  scheduling and are left out.

  \<^verbatim>\<open>process()\<close> and the three outcome hooks are supplied by subclasses. What one call
  of them does is a field of the job. A hook returns, or returns a promise that rejects
  (as an async hook does when its body fails), or throws at the call. \<^verbatim>\<open>process()\<close>
  returns a promise that fulfils or rejects some milliseconds after the call, or one
  that never settles, or it throws at the call. Their bodies are taken not to write the
  scheduling fields.
\<close>

type_synonym job_ref = nat

datatype hook_behaviour = HookReturns | HookRejects string | HookThrows string

datatype js_value = Undefined | PromiseFulfilled | PromiseRejected string

datatype settle = Fulfils nat | Rejects nat | NeverSettles | ThrowsSync string

record job =
  j_maxAttempts :: int
  j_attempts :: int
  j_retryWaitInMillis :: int
  j_lockedAt :: int
  j_availableAt :: int
  j_cancelled :: bool
  process :: settle
  onSuccess :: hook_behaviour
  onFailure :: hook_behaviour
  onPermanentFailure :: hook_behaviour

text \<open>The field initialisers of \<^verbatim>\<open>BaseJob\<close>; \<open>created\<close> is \<^verbatim>\<open>Date.now()\<close> at construction.\<close>

definition newJob :: "int \<Rightarrow> settle \<Rightarrow> job" where
  "newJob created p =
     \<lparr>j_maxAttempts = 5, j_attempts = 0, j_retryWaitInMillis = 0, j_lockedAt = 0,
      j_availableAt = created, j_cancelled = False, process = p,
      onSuccess = HookReturns, onFailure = HookReturns, onPermanentFailure = HookReturns\<rparr>"

definition maxAttempts :: "int \<Rightarrow> job \<Rightarrow> job" where
  "maxAttempts n j = j\<lparr>j_maxAttempts := n\<rparr>"

definition later :: "int \<Rightarrow> job \<Rightarrow> job" where
  "later atTime j = j\<lparr>j_availableAt := atTime\<rparr>"

definition attempts :: "job \<Rightarrow> int" where
  "attempts j = j_attempts j"

definition lockTime :: "job \<Rightarrow> int" where
  "lockTime j = j_lockedAt j"

definition availableAt :: "job \<Rightarrow> int" where
  "availableAt j = j_availableAt j"

definition triedMaxAttempts :: "job \<Rightarrow> bool" where
  "triedMaxAttempts j = (attempts j \<ge> j_maxAttempts j)"

text \<open>The argument \<open>now\<close> is the reading of \<^verbatim>\<open>Date.now()\<close>.\<close>

definition isStillLocked :: "int \<Rightarrow> job \<Rightarrow> bool" where
  "isStillLocked now j = (now < j_retryWaitInMillis j + j_lockedAt j)"

definition isAvailable :: "int \<Rightarrow> job \<Rightarrow> bool" where
  "isAvailable now j = (now \<ge> j_availableAt j)"

definition isCancelled :: "job \<Rightarrow> bool" where
  "isCancelled j = j_cancelled j"


section \<open>The queue (src/src/baseQueue.ts)\<close>

text \<open>
  The state holds the fields of the queue, the object store \<open>heap\<close>, and two ghost
  fields. The trace \<open>events\<close> records, in order, every backend outcome operation
  entered, every hook invoked, every call of \<^verbatim>\<open>process()\<close> and every timeout timer
  started or cleared. \<open>unhandledRejections\<close> records the reason of every rejected promise
  that is dropped with no handler attached to it.
\<close>

datatype event =
    CallFailJob job_ref
  | CallFailJobForever job_ref
  | CallFinishJob job_ref
  | HookOnSuccess job_ref
  | HookOnFailure job_ref
  | HookOnPermanentFailure job_ref
  | CallProcess job_ref
  | TimerStarted job_ref js_number
  | TimerCleared job_ref

record state =
  jobs :: "job_ref list"
  concurrency :: js_number
  pollInterval :: int
  jobTimeout :: js_number
  heap :: "job_ref \<Rightarrow> job"
  events :: "event list"
  unhandledRejections :: "string list"

definition newMemoryQueue :: "(job_ref \<Rightarrow> job) \<Rightarrow> state" where
  "newMemoryQueue h =
     \<lparr>jobs = [], concurrency = Finite 2, pollInterval = 100, jobTimeout = Finite 10000,
      heap = h, events = [], unhandledRejections = []\<rparr>"

definition setConcurrency :: "js_number \<Rightarrow> state \<Rightarrow> state" where
  "setConcurrency concurrentJobs q =
     q\<lparr>concurrency := js_or concurrentJobs (concurrency q)\<rparr>"

definition setTimeout :: "js_number \<Rightarrow> state \<Rightarrow> state" where
  "setTimeout inSeconds q =
     q\<lparr>jobTimeout := Math_trunc (js_or (js_times inSeconds (Finite 1000)) (jobTimeout q))\<rparr>"

text \<open>
  Calling a hook: the call is recorded, and it returns a value or throws (\<open>Inl\<close>).
  \<open>raiseEvent\<close> is \<^verbatim>\<open>try { return event(); } catch (err) {}\<close>.
\<close>

definition callHook :: "event \<Rightarrow> hook_behaviour \<Rightarrow> state \<Rightarrow> state \<times> (error + js_value)" where
  "callHook ev h q =
     (q\<lparr>events := events q @ [ev]\<rparr>,
      case h of
        HookReturns \<Rightarrow> Inr PromiseFulfilled
      | HookRejects m \<Rightarrow> Inr (PromiseRejected m)
      | HookThrows m \<Rightarrow> Inl (Thrown m))"

definition raiseEvent :: "event \<Rightarrow> hook_behaviour \<Rightarrow> state \<Rightarrow> state \<times> (error + js_value)" where
  "raiseEvent ev h q =
     (case callHook ev h q of
        (q', Inl err) \<Rightarrow> (q', Inr Undefined)
      | (q', Inr v) \<Rightarrow> (q', Inr v))"


section \<open>The memory backend (src/unnamed/part_000)\<close>

definition insertJob :: "job_ref \<Rightarrow> state \<Rightarrow> state \<times> bool" where
  "insertJob job q = (q\<lparr>jobs := jobs q @ [job]\<rparr>, True)"

definition jobReadyForProcessing :: "int \<Rightarrow> job \<Rightarrow> bool" where
  "jobReadyForProcessing now j = (\<not> isStillLocked now j \<and> isAvailable now j \<and> \<not> isCancelled j)"

text \<open>
  \<^verbatim>\<open>Array.prototype.sort\<close> is stable and the comparator is the difference of two
  integers, so it is the stable sort by the key \<open>availableAt\<close>. The field
  \<^verbatim>\<open>_concurrency\<close> is a number; the falsy caps are 0 and NaN.
\<close>

definition getNextJobs :: "int \<Rightarrow> state \<Rightarrow> error + job_ref list" where
  "getNextJobs now q =
     (let poppedJobs =
            sort_key (\<lambda>r. availableAt (heap q r))
              (filter (\<lambda>r. jobReadyForProcessing now (heap q r)) (jobs q))
      in if truthy (concurrency q) \<and>
            js_less (concurrency q) (Finite (of_nat (length poppedJobs)))
         then setLength poppedJobs (concurrency q)
         else Inr poppedJobs)"

definition removeJobFromQueue :: "job_ref \<Rightarrow> state \<Rightarrow> state" where
  "removeJobFromQueue job q =
     (let index = indexOf (jobs q) job
      in if index \<noteq> 1 then q\<lparr>jobs := splice_js (jobs q) index 1\<rparr> else q)"

text \<open>
  The outcome operations call \<^verbatim>\<open>this.raiseEvent(...)\<close> as a statement: its value is
  dropped. When that value is a promise that rejects, nothing ever handles the rejection.
\<close>

definition dropValue :: "js_value \<Rightarrow> state \<Rightarrow> state" where
  "dropValue v q =
     (case v of
        PromiseRejected m \<Rightarrow> q\<lparr>unhandledRejections := unhandledRejections q @ [m]\<rparr>
      | PromiseFulfilled \<Rightarrow> q
      | Undefined \<Rightarrow> q)"

text \<open>
  The three outcome operations. Each returns the new state and either the error it
  threw (\<open>Inl\<close>) or the value its promise resolves with.
\<close>

definition failJob :: "job_ref \<Rightarrow> state \<Rightarrow> state \<times> (error + bool)" where
  "failJob job q =
     (let q0 = q\<lparr>events := events q @ [CallFailJob job]\<rparr>
      in case raiseEvent (HookOnFailure job) (onFailure (heap q0 job)) q0 of
           (q1, Inl err) \<Rightarrow> (q1, Inl err)
         | (q1, Inr v) \<Rightarrow> (dropValue v q1, Inr True))"

definition failJobForever :: "job_ref \<Rightarrow> state \<Rightarrow> state \<times> (error + unit)" where
  "failJobForever job q =
     (let q0 = removeJobFromQueue job (q\<lparr>events := events q @ [CallFailJobForever job]\<rparr>)
      in case raiseEvent (HookOnPermanentFailure job) (onPermanentFailure (heap q0 job)) q0 of
           (q1, Inl err) \<Rightarrow> (q1, Inl err)
         | (q1, Inr v) \<Rightarrow> (dropValue v q1, Inr ()))"

definition finishJob :: "job_ref \<Rightarrow> state \<Rightarrow> state \<times> (error + bool)" where
  "finishJob job q =
     (let q0 = removeJobFromQueue job (q\<lparr>events := events q @ [CallFinishJob job]\<rparr>)
      in case raiseEvent (HookOnSuccess job) (onSuccess (heap q0 job)) q0 of
           (q1, Inl err) \<Rightarrow> (q1, Inl err)
         | (q1, Inr v) \<Rightarrow> (dropValue v q1, Inr True))"


section \<open>Processing one job (BaseQueue.processJob)\<close>

text \<open>
  The handler \<^verbatim>\<open>.catch((reason) => this.failJob(job).catch((err) => err))\<close> that runs once
  the promise built in \<open>processJob\<close> is rejected. The reason is not passed on.
\<close>

definition onRejected :: "job_ref \<Rightarrow> state \<Rightarrow> state \<times> (error + unit)" where
  "onRejected job q =
     (case failJob job q of
        (q1, Inl err) \<Rightarrow> (q1, Inl err)
      | (q1, Inr v) \<Rightarrow> (q1, Inr ()))"

text \<open>
  \<open>processJob job q\<close> gives the state at the moment the promise returned by
  \<^verbatim>\<open>processJob\<close> settles, how it settles (\<open>Inr\<close> resolved, \<open>Inl\<close> rejected), and the job
  whose \<^verbatim>\<open>process()\<close> promise is still outstanding and will fulfil after the timeout,
  if there is one. One call is followed in isolation: nothing else touches the queue
  between the call of \<^verbatim>\<open>process()\<close> and the settlement. The timer is armed before
  \<^verbatim>\<open>process()\<close> is called, so it wins a tie. A promise settles once: after the timer
  has rejected it, the later \<^verbatim>\<open>resolve\<close> and \<^verbatim>\<open>reject\<close> do nothing, and a timer that
  fires after the promise has settled does nothing either. An error thrown inside the
  executor rejects the promise.
\<close>

definition processJob :: "job_ref \<Rightarrow> state \<Rightarrow> (state \<times> (error + unit)) \<times> job_ref option" where
  "processJob job q =
     (if triedMaxAttempts (heap q job) then
        (case failJobForever job q of
           (q1, Inl err) \<Rightarrow> (onRejected job q1, None)
         | (q1, Inr v) \<Rightarrow> ((q1, Inr ()), None))
      else if isCancelled (heap q job) then ((q, Inr ()), None)
      else
        (let q1 = q\<lparr>events := events q @ [TimerStarted job (jobTimeout q), CallProcess job]\<rparr>
         in case process (heap q job) of
              ThrowsSync m \<Rightarrow> (onRejected job q1, None)
            | NeverSettles \<Rightarrow> (onRejected job q1, None)
            | Rejects d \<Rightarrow> (onRejected job q1, None)
            | Fulfils d \<Rightarrow>
                if int d < timerDelay (jobTimeout q) then
                  (case finishJob job q1 of
                     (q2, Inl err) \<Rightarrow> (onRejected job q2, None)
                   | (q2, Inr v) \<Rightarrow>
                       ((q2\<lparr>events := events q2 @ [TimerCleared job]\<rparr>, Inr ()), None))
                else (onRejected job q1, Some job)))"

text \<open>
  What runs when a \<^verbatim>\<open>process()\<close> promise fulfils after its timer has fired: the chain
  \<^verbatim>\<open>.then(() => this.finishJob(job)).then(() => clearTimeout(processTimeout))\<close> is still
  attached to it.
\<close>

definition lateCompletion :: "job_ref \<Rightarrow> state \<Rightarrow> state" where
  "lateCompletion job q =
     (case finishJob job q of
        (q1, Inl err) \<Rightarrow> q1
      | (q1, Inr v) \<Rightarrow> q1\<lparr>events := events q1 @ [TimerCleared job]\<rparr>)"

text \<open>
  Whether the timer of a dispatched job fires before its \<^verbatim>\<open>process()\<close> promise settles.
\<close>

definition timerFiresFirst :: "job_ref \<Rightarrow> state \<Rightarrow> bool" where
  "timerFiresFirst job q =
     (case process (heap q job) of
        Fulfils d \<Rightarrow> timerDelay (jobTimeout q) \<le> int d
      | Rejects d \<Rightarrow> timerDelay (jobTimeout q) \<le> int d
      | NeverSettles \<Rightarrow> True
      | ThrowsSync m \<Rightarrow> False)"


section \<open>Cancelling a job (BaseJob.cancel)\<close>

text \<open>
  \<^verbatim>\<open>cancel()\<close> sets the flag and then calls \<^verbatim>\<open>cancelJob\<close> of the queue manager, which is
  not part of these sources: it is the parameter \<open>cancelJob\<close>.
\<close>

definition cancel :: "(job_ref \<Rightarrow> state \<Rightarrow> state) \<Rightarrow> job_ref \<Rightarrow> state \<Rightarrow> state" where
  "cancel cancelJob job q =
     cancelJob job (q\<lparr>heap := (heap q)(job := (heap q job)\<lparr>j_cancelled := True\<rparr>)\<rparr>)"


section \<open>Histories of operations\<close>

text \<open>
  The operations of the core, one after the other; a late completion is the part of
  \<open>processJob\<close> that runs after its promise has settled.
\<close>

datatype operation =
    Insert job_ref
  | GetNextJobs int
  | ProcessJob job_ref
  | LateCompletion job_ref
  | FailJob job_ref
  | FailJobForever job_ref
  | FinishJob job_ref
  | Cancel job_ref

fun step :: "(job_ref \<Rightarrow> state \<Rightarrow> state) \<Rightarrow> operation \<Rightarrow> state \<Rightarrow> state" where
  "step cj (Insert job) q = fst (insertJob job q)"
| "step cj (GetNextJobs now) q = (case getNextJobs now q of Inl err \<Rightarrow> q | Inr js \<Rightarrow> q)"
| "step cj (ProcessJob job) q = fst (fst (processJob job q))"
| "step cj (LateCompletion job) q = lateCompletion job q"
| "step cj (FailJob job) q = fst (failJob job q)"
| "step cj (FailJobForever job) q = fst (failJobForever job q)"
| "step cj (FinishJob job) q = fst (finishJob job q)"
| "step cj (Cancel job) q = cancel cj job q"

fun run :: "(job_ref \<Rightarrow> state \<Rightarrow> state) \<Rightarrow> operation list \<Rightarrow> state \<Rightarrow> state" where
  "run cj [] q = q"
| "run cj (op # ops) q = run cj ops (step cj op q)"


section \<open>Notions used in the statements\<close>

text \<open>Eligibility in the words of the specification (section 4.2).\<close>

definition eligible :: "int \<Rightarrow> job \<Rightarrow> bool" where
  "eligible now j = (isAvailable now j \<and> \<not> isStillLocked now j \<and> \<not> isCancelled j)"

text \<open>
  The numbers a caller can pass: NaN, the infinities, and the rationals that are
  doubles, which rounding leaves as they are.
\<close>

definition isDouble :: "js_number \<Rightarrow> bool" where
  "isDouble x =
     (case x of
        Finite r \<Rightarrow> toDouble r = Finite r
      | NaN \<Rightarrow> True
      | PosInfinity \<Rightarrow> True
      | NegInfinity \<Rightarrow> True)"

text \<open>What \<open>raiseEvent\<close> hands back for each behaviour of the hook.\<close>

definition raisedValue :: "hook_behaviour \<Rightarrow> js_value" where
  "raisedValue h =
     (case h of
        HookReturns \<Rightarrow> PromiseFulfilled
      | HookRejects m \<Rightarrow> PromiseRejected m
      | HookThrows m \<Rightarrow> Undefined)"


section \<open>Concrete queues\<close>

definition quickJobs :: "job_ref \<Rightarrow> job" where
  "quickJobs = (\<lambda>r. newJob 0 (Fulfils 5))"

definition twoJobs :: state where
  "twoJobs = fst (insertJob 1 (fst (insertJob 0 (newMemoryQueue quickJobs))))"

definition scenarioJobs :: "job_ref \<Rightarrow> job" where
  "scenarioJobs =
     (\<lambda>r. if r = 0 then newJob 100 (Fulfils 5)
          else if r = 1 then later 110 (newJob 100 (Fulfils 5))
          else later 95 (newJob 100 (Fulfils 5)))"

definition scenario :: state where
  "scenario =
     fst (insertJob 2 (fst (insertJob 1 (fst (insertJob 0 (newMemoryQueue scenarioJobs))))))"

definition exhaustedQueue :: state where
  "exhaustedQueue =
     fst (insertJob 0 (newMemoryQueue (\<lambda>r. maxAttempts 0 (newJob 0 (Fulfils 5)))))"

definition slowQueue :: state where
  "slowQueue = fst (insertJob 0 (newMemoryQueue (\<lambda>r. newJob 0 (Fulfils 20000))))"

definition failingQueue :: state where
  "failingQueue =
     fst (insertJob 0 (newMemoryQueue (\<lambda>r. maxAttempts 1 (newJob 0 (Rejects 5)))))"

definition throwingQueue :: state where
  "throwingQueue =
     fst (insertJob 0 (newMemoryQueue
       (\<lambda>r. (newJob 0 (Fulfils 5))
              \<lparr>onSuccess := HookThrows ''success hook'',
               onFailure := HookThrows ''failure hook'',
               onPermanentFailure := HookThrows ''permanent failure hook''\<rparr>)))"

definition rejectingQueue :: state where
  "rejectingQueue =
     fst (insertJob 0 (newMemoryQueue
       (\<lambda>r. (newJob 0 (Fulfils 5))\<lparr>onSuccess := HookRejects ''success hook''\<rparr>)))"

text \<open>A stand-in for the queue manager's \<^verbatim>\<open>cancelJob\<close>, and a history that uses it.\<close>

definition dropJob :: "job_ref \<Rightarrow> state \<Rightarrow> state" where
  "dropJob job q = q\<lparr>jobs := removeAll job (jobs q)\<rparr>"

definition exampleHistory :: "operation list" where
  "exampleHistory =
     [ProcessJob 0, GetNextJobs 100, ProcessJob 0, FailJob 0, Insert 1, FinishJob 1,
      Cancel 1, FailJobForever 0, LateCompletion 0]"


section \<open>Unfolding sets and basic facts\<close>

lemmas job_defs =
  newJob_def maxAttempts_def later_def attempts_def lockTime_def availableAt_def
  triedMaxAttempts_def isStillLocked_def isAvailable_def isCancelled_def

lemmas number_defs =
  truthy_def js_or_def Math_trunc_def setLength_def timerDelay_def isDouble_def

lemmas double_defs =
  toDouble_def binade_def roundHalfEven_def pow2_def Let_def eval_nat_numeral

lemmas queue_defs =
  newMemoryQueue_def setConcurrency_def setTimeout_def splice_js_def insertJob_def
  jobReadyForProcessing_def getNextJobs_def removeJobFromQueue_def callHook_def raiseEvent_def
  dropValue_def failJob_def failJobForever_def finishJob_def onRejected_def
  processJob_def lateCompletion_def timerFiresFirst_def number_defs

lemma floor_rat_numeral [simp]:
  "\<lfloor>(numeral a :: rat) / numeral b\<rfloor> = numeral a div numeral b"
  using floor_divide_of_int_eq [of "numeral a" "numeral b", where ?'a = rat] by simp

lemma raiseEvent_eq:
  "raiseEvent ev h q = (q\<lparr>events := events q @ [ev]\<rparr>, Inr (raisedValue h))"
  by (cases h) (simp_all add: raiseEvent_def callHook_def raisedValue_def)

lemma dropValue_fields [simp]:
  "jobs (dropValue v q) = jobs q"
  "heap (dropValue v q) = heap q"
  "events (dropValue v q) = events q"
  "jobTimeout (dropValue v q) = jobTimeout q"
  "concurrency (dropValue v q) = concurrency q"
  by (cases v; simp add: dropValue_def)+

lemma removeJobFromQueue_fields [simp]:
  "heap (removeJobFromQueue job q) = heap q"
  "events (removeJobFromQueue job q) = events q"
  "jobTimeout (removeJobFromQueue job q) = jobTimeout q"
  "concurrency (removeJobFromQueue job q) = concurrency q"
  "unhandledRejections (removeJobFromQueue job q) = unhandledRejections q"
  by (simp_all add: removeJobFromQueue_def Let_def)

lemma jobs_removeJobFromQueue_events [simp]:
  "jobs (removeJobFromQueue job (q\<lparr>events := es\<rparr>)) = jobs (removeJobFromQueue job q)"
  by (simp add: removeJobFromQueue_def Let_def)

lemma failJob_eq:
  "failJob job q =
     (dropValue (raisedValue (onFailure (heap q job)))
        (q\<lparr>events := events q @ [CallFailJob job, HookOnFailure job]\<rparr>), Inr True)"
  by (simp add: failJob_def raiseEvent_eq Let_def)

lemma finishJob_eq:
  "finishJob job q =
     (dropValue (raisedValue (onSuccess (heap q job)))
        ((removeJobFromQueue job q)
           \<lparr>events := events q @ [CallFinishJob job, HookOnSuccess job]\<rparr>), Inr True)"
  by (simp add: finishJob_def raiseEvent_eq removeJobFromQueue_def Let_def)

lemma failJobForever_eq:
  "failJobForever job q =
     (dropValue (raisedValue (onPermanentFailure (heap q job)))
        ((removeJobFromQueue job q)
           \<lparr>events := events q @ [CallFailJobForever job, HookOnPermanentFailure job]\<rparr>),
      Inr ())"
  by (simp add: failJobForever_def raiseEvent_eq removeJobFromQueue_def Let_def)

lemma onRejected_eq:
  "onRejected job q =
     (dropValue (raisedValue (onFailure (heap q job)))
        (q\<lparr>events := events q @ [CallFailJob job, HookOnFailure job]\<rparr>), Inr ())"
  by (simp add: onRejected_def failJob_eq)

lemma lateCompletion_eq:
  "lateCompletion job q =
     (dropValue (raisedValue (onSuccess (heap q job)))
        ((removeJobFromQueue job q)
           \<lparr>events := events q @ [CallFinishJob job, HookOnSuccess job]\<rparr>))
       \<lparr>events := events q @ [CallFinishJob job, HookOnSuccess job, TimerCleared job]\<rparr>"
  by (simp add: lateCompletion_def finishJob_eq)

lemma heap_processJob: "heap (fst (fst (processJob job q))) = heap q"
  by (simp add: processJob_def failJobForever_eq finishJob_eq onRejected_eq Let_def
      split: settle.splits)

lemma settled_processJob: "snd (fst (processJob job q)) = Inr ()"
  by (simp add: processJob_def failJobForever_eq finishJob_eq onRejected_eq Let_def
      split: settle.splits)


section \<open>Rounding to a double\<close>

lemma pow2_pos: "0 < pow2 e"
  by (simp add: pow2_def)

lemma pow2_mono: "d \<le> e \<Longrightarrow> pow2 d \<le> pow2 e"
  unfolding pow2_def by (rule power_int_increasing) simp_all

lemma binadeSearch_lower: "lo \<le> binadeSearch a lo k"
proof (induction k arbitrary: lo)
  case 0
  show ?case by simp
next
  case (Suc k)
  have low: "lo \<le> binadeSearch a lo k" by (rule Suc.IH)
  have "lo + 2 ^ k \<le> binadeSearch a (lo + 2 ^ k) k" by (rule Suc.IH)
  moreover have "lo \<le> lo + 2 ^ k" by simp
  ultimately have high: "lo \<le> binadeSearch a (lo + 2 ^ k) k" by (rule order_trans [rotated])
  from low high show ?case by simp
qed

lemma binadeSearch_reached:
  "lo < binadeSearch a lo k \<Longrightarrow> pow2 (binadeSearch a lo k) \<le> a"
proof (induction k arbitrary: lo)
  case 0
  then show ?case by simp
next
  case (Suc k)
  show ?case
  proof (cases "a < pow2 (lo + 2 ^ k)")
    case True
    with Suc.prems Suc.IH [of lo] show ?thesis by simp
  next
    case False
    show ?thesis
    proof (cases "lo + 2 ^ k < binadeSearch a (lo + 2 ^ k) k")
      case True
      with False Suc.IH [of "lo + 2 ^ k"] show ?thesis by simp
    next
      case stay: False
      with binadeSearch_lower [of "lo + 2 ^ k" a k]
      have "binadeSearch a (lo + 2 ^ k) k = lo + 2 ^ k" by simp
      with False show ?thesis by simp
    qed
  qed
qed

lemma binadeSearch_below:
  "a < pow2 (lo + 2 ^ k) \<Longrightarrow> a < pow2 (binadeSearch a lo k + 1)"
proof (induction k arbitrary: lo)
  case 0
  then show ?case by simp
next
  case (Suc k)
  show ?case
  proof (cases "a < pow2 (lo + 2 ^ k)")
    case True
    with Suc.IH [of lo] show ?thesis by simp
  next
    case False
    have eq: "lo + 2 ^ k + 2 ^ k = lo + 2 ^ Suc k" by simp
    from Suc.prems have "a < pow2 (lo + 2 ^ k + 2 ^ k)" by (simp only: eq)
    with False Suc.IH [of "lo + 2 ^ k"] show ?thesis by simp
  qed
qed

lemma binadeSearch_nonpos: "a \<le> 0 \<Longrightarrow> binadeSearch a lo k = lo"
proof (induction k arbitrary: lo)
  case 0
  show ?case by simp
next
  case (Suc k)
  have "a < pow2 (lo + 2 ^ k)"
    using Suc.prems pow2_pos [of "lo + 2 ^ k"] by (rule le_less_trans)
  with Suc show ?case by simp
qed

text \<open>
  The bisection finds the binade: from the smallest normal exponent on, \<open>binade a\<close> is
  the exponent of the power of two at or below \<open>a\<close>, and \<open>a\<close> lies below the next power
  as long as it lies below \<open>2^1026\<close>.
\<close>

lemma binade_lower: "- 1022 \<le> binade a"
  unfolding binade_def by (rule binadeSearch_lower)

lemma binade_reached: "- 1022 < binade a \<Longrightarrow> pow2 (binade a) \<le> a"
  unfolding binade_def by (rule binadeSearch_reached)

lemma binade_below: "a < pow2 1026 \<Longrightarrow> a < pow2 (binade a + 1)"
  unfolding binade_def using binadeSearch_below [of a "- 1022" 11] by simp

lemma ulp_below:
  assumes "pow2 (- 1074) \<le> a"
  shows "pow2 (binade a - 52) \<le> a"
proof (cases "binade a = - 1022")
  case True
  with assms show ?thesis by simp
next
  case False
  with binade_lower [of a] have "- 1022 < binade a" by simp
  then have "pow2 (binade a) \<le> a" by (rule binade_reached)
  moreover have "pow2 (binade a - 52) \<le> pow2 (binade a)"
    by (rule pow2_mono) simp
  ultimately show ?thesis by (rule order_trans [rotated])
qed

lemma roundHalfEven_nonneg: "0 \<le> x \<Longrightarrow> 0 \<le> roundHalfEven x"
  by (simp add: roundHalfEven_def Let_def)

lemma roundHalfEven_pos: "1 \<le> x \<Longrightarrow> 1 \<le> roundHalfEven x"
proof -
  assume "1 \<le> x"
  then have "1 \<le> \<lfloor>x\<rfloor>" by simp
  then show ?thesis by (simp add: roundHalfEven_def Let_def)
qed

lemma toDouble_cases:
  "toDouble x = PosInfinity \<or> toDouble x = NegInfinity \<or>
   toDouble x =
     Finite (sgn x * of_int (roundHalfEven (\<bar>x\<bar> / pow2 (binade \<bar>x\<bar> - 52))) *
             pow2 (binade \<bar>x\<bar> - 52))"
  by (simp add: toDouble_def Let_def)

lemma toDouble_zero: "toDouble 0 = Finite 0"
proof -
  have "\<not> pow2 1024 \<le> 0" using pow2_pos [of 1024] by simp
  then show ?thesis
    by (simp add: toDouble_def Let_def binade_def binadeSearch_nonpos roundHalfEven_def)
qed

text \<open>Nothing from the smallest subnormal number on rounds to zero.\<close>

lemma toDouble_not_zero:
  assumes "pow2 (- 1074) \<le> \<bar>x\<bar>"
  shows "toDouble x \<noteq> Finite 0"
proof -
  define ulp where "ulp = pow2 (binade \<bar>x\<bar> - 52)"
  define m where "m = roundHalfEven (\<bar>x\<bar> / ulp)"
  have ulp_pos: "0 < ulp" by (simp add: ulp_def pow2_pos)
  have "ulp \<le> \<bar>x\<bar>" unfolding ulp_def using assms by (rule ulp_below)
  with ulp_pos have "1 \<le> \<bar>x\<bar> / ulp" by simp
  then have "1 \<le> m" unfolding m_def by (rule roundHalfEven_pos)
  then have m: "of_int m \<noteq> (0::rat)" by simp
  have "0 < \<bar>x\<bar>" using pow2_pos [of "- 1074"] assms by (rule less_le_trans)
  then have x: "sgn x \<noteq> 0" by (simp add: sgn_if)
  from x m ulp_pos have "sgn x * of_int m * ulp \<noteq> 0" by simp
  with toDouble_cases [of x] show ?thesis
    by (auto simp: ulp_def m_def)
qed

text \<open>A double other than zero is at least the smallest subnormal number.\<close>

lemma double_not_tiny:
  assumes "toDouble r = Finite r" and "r \<noteq> 0"
  shows "pow2 (- 1074) \<le> \<bar>r\<bar>"
proof -
  define ulp where "ulp = pow2 (binade \<bar>r\<bar> - 52)"
  define m where "m = roundHalfEven (\<bar>r\<bar> / ulp)"
  have ulp_pos: "0 < ulp" by (simp add: ulp_def pow2_pos)
  from toDouble_cases [of r] assms(1) have r: "r = sgn r * of_int m * ulp"
    by (auto simp: ulp_def m_def)
  have "0 \<le> \<bar>r\<bar> / ulp" using ulp_pos by simp
  then have m0: "0 \<le> m" unfolding m_def by (rule roundHalfEven_nonneg)
  have "m \<noteq> 0" using r assms(2) by auto
  with m0 have "1 \<le> m" by simp
  then have "(1::rat) \<le> of_int m" by simp
  then have "1 * ulp \<le> of_int m * ulp" using ulp_pos by (intro mult_right_mono) simp_all
  then have big: "ulp \<le> of_int m * ulp" by simp
  have "\<bar>r\<bar> = \<bar>sgn r\<bar> * \<bar>of_int m\<bar> * \<bar>ulp\<bar>"
    by (subst r) (simp only: abs_mult)
  also have "\<dots> = of_int m * ulp"
    using assms(2) m0 ulp_pos by (simp add: sgn_if)
  finally have abs_r: "\<bar>r\<bar> = of_int m * ulp" .
  have "- 1074 \<le> binade \<bar>r\<bar> - 52" using binade_lower [of "\<bar>r\<bar>"] by simp
  then have "pow2 (- 1074) \<le> ulp" unfolding ulp_def by (rule pow2_mono)
  with big abs_r show ?thesis by simp
qed

text \<open>So the product of a non-zero double and 1000 is never falsy.\<close>

lemma product_by_1000_not_zero:
  assumes "toDouble r = Finite r" and "r \<noteq> 0"
  shows "toDouble (r * 1000) \<noteq> Finite 0"
proof (rule toDouble_not_zero)
  have "pow2 (- 1074) \<le> \<bar>r\<bar>" using assms by (rule double_not_tiny)
  also have "\<bar>r\<bar> \<le> \<bar>r\<bar> * 1000" by simp
  finally show "pow2 (- 1074) \<le> \<bar>r * 1000\<bar>" by (simp add: abs_mult)
qed

lemma toDouble_never_NaN: "toDouble x \<noteq> NaN"
  using toDouble_cases [of x] by auto

lemma product_by_1000_truthy:
  assumes "isDouble s"
  shows "truthy (js_times s (Finite 1000)) = (s \<noteq> NaN \<and> s \<noteq> Finite 0)"
proof (cases s)
  case (Finite r)
  show ?thesis
  proof (cases "r = 0")
    case True
    with Finite show ?thesis by (simp add: toDouble_zero truthy_def)
  next
    case False
    from assms Finite have "toDouble r = Finite r" by (simp add: isDouble_def)
    from product_by_1000_not_zero [OF this False] toDouble_never_NaN [of "r * 1000"]
    have "truthy (toDouble (r * 1000))"
      by (cases "toDouble (r * 1000)") (simp_all add: truthy_def)
    with Finite False show ?thesis by simp
  qed
qed (simp_all add: truthy_def)

text \<open>
  Rounding at the decimal literals \<^verbatim>\<open>4.35\<close> and \<^verbatim>\<open>1.001\<close>, at a tie between two
  subnormal numbers, and at the largest finite double and the overflow threshold.
\<close>

lemma toDouble_examples:
  "toDouble (435 / 100) = Finite (2448832297382707 / 562949953421312)"
  "toDouble (2448832297382707 / 562949953421312 * 1000) = Finite 4350"
  "toDouble (1001 / 1000) = Finite (2254051613498933 / 2251799813685248)"
  "toDouble (2254051613498933 / 2251799813685248 * 1000) =
     Finite (8804889115230207 / 8796093022208)"
  "toDouble (3 / 2 ^ 1075) = Finite (1 / 2 ^ 1073)"
  "toDouble (2 ^ 1024 - 2 ^ 970 - 1) = Finite (2 ^ 1024 - 2 ^ 971)"
  "toDouble (2 ^ 1024 - 2 ^ 970) = PosInfinity"
  by (simp_all add: double_defs)


section \<open>Removal from the memory backend\<close>

text \<open>
  \<open>indexOf\<close> finds a stored element, and \<open>splice_js\<close> at a position inside the list
  deletes the element there.
\<close>

lemma indexOf_absent: "x \<notin> set xs \<Longrightarrow> indexOf xs x = - 1"
  by (induction xs) (auto simp: Let_def)

lemma indexOf_present:
  "x \<in> set xs \<Longrightarrow>
     0 \<le> indexOf xs x \<and> indexOf xs x < int (length xs) \<and> xs ! nat (indexOf xs x) = x"
proof (induction xs)
  case Nil
  then show ?case by simp
next
  case (Cons y ys)
  show ?case
  proof (cases "y = x")
    case True
    then show ?thesis by simp
  next
    case False
    with Cons.prems have "x \<in> set ys" by simp
    from Cons.IH [OF this] False show ?thesis
      by (simp add: Let_def nat_add_distrib)
  qed
qed

lemma splice_js_inside:
  "0 \<le> i \<Longrightarrow> i < int (length xs) \<Longrightarrow>
     splice_js xs i n = take (nat i) xs @ drop (nat i + n) xs"
  by (simp add: splice_js_def Let_def min_def)

lemma distinct_without_nth:
  assumes "distinct xs" and "n < length xs"
  shows "xs ! n \<notin> set (take n xs @ drop (Suc n) xs)"
proof -
  have "xs = take n xs @ xs ! n # drop (Suc n) xs"
    using assms(2) by (rule id_take_nth_drop)
  then have "distinct (take n xs @ xs ! n # drop (Suc n) xs)"
    using assms(1) by simp
  then show ?thesis by auto
qed

text \<open>
  A job that is stored once and does not sit at index 1 is removed. Index 1 is the case
  the guard \<^verbatim>\<open>index != 1\<close> leaves out.
\<close>

lemma removeJobFromQueue_removes_unless_index_one:
  assumes "distinct (jobs q)" and "job \<in> set (jobs q)" and "indexOf (jobs q) job \<noteq> 1"
  shows "job \<notin> set (jobs (removeJobFromQueue job q))"
proof -
  from indexOf_present [OF assms(2)]
  have range: "0 \<le> indexOf (jobs q) job" "indexOf (jobs q) job < int (length (jobs q))"
    and at: "jobs q ! nat (indexOf (jobs q) job) = job"
    by simp_all
  have "jobs (removeJobFromQueue job q) =
          take (nat (indexOf (jobs q) job)) (jobs q) @
          drop (Suc (nat (indexOf (jobs q) job))) (jobs q)"
    using assms(3) range by (simp add: removeJobFromQueue_def Let_def splice_js_inside)
  moreover have "nat (indexOf (jobs q) job) < length (jobs q)"
    using range by simp
  ultimately show ?thesis
    using distinct_without_nth [OF assms(1), of "nat (indexOf (jobs q) job)"] at by simp
qed

lemma removeJobFromQueue_keeps_index_one:
  "indexOf (jobs q) job = 1 \<Longrightarrow> removeJobFromQueue job q = q"
  by (simp add: removeJobFromQueue_def)

text \<open>
  For a job that is not stored, \<open>indexOf\<close> gives \<open>-1\<close>, which passes the guard:
  \<^verbatim>\<open>splice(-1, 1)\<close> deletes the last stored job.
\<close>

lemma removeJobFromQueue_absent_drops_last:
  assumes "job \<notin> set (jobs q)"
  shows "jobs (removeJobFromQueue job q) = butlast (jobs q)"
proof -
  have "indexOf (jobs q) job = - 1"
    using assms by (rule indexOf_absent)
  then show ?thesis
    by (cases "jobs q" rule: rev_cases)
       (simp_all add: removeJobFromQueue_def splice_js_def Let_def)
qed

text \<open>Each outcome operation enters once and invokes its hook once.\<close>

lemma outcome_hooks_invoked_once:
  "events (fst (finishJob job q)) = events q @ [CallFinishJob job, HookOnSuccess job]"
  "events (fst (failJobForever job q)) =
     events q @ [CallFailJobForever job, HookOnPermanentFailure job]"
  "events (fst (failJob job q)) = events q @ [CallFailJob job, HookOnFailure job]"
  by (simp_all add: finishJob_eq failJobForever_eq failJob_eq)

text \<open>
  Claim C1. For every stored job, after \<open>finishJob\<close> the job is absent from the active
  set and \<open>onSuccess\<close> was invoked exactly once, whatever the job's position. The guard
  of \<open>removeJobFromQueue\<close> compares the index with \<open>1\<close>: in the queue holding the jobs
  0 and 1, in this order, \<open>finishJob\<close> of job 1 invokes the hook once and leaves the
  job in the storage.
\<close>

theorem finishJob_keeps_job_at_index_one:
  "jobs twoJobs = [0, 1] \<and> jobs (fst (finishJob 1 twoJobs)) = [0, 1] \<and>
   events (fst (finishJob 1 twoJobs)) = [CallFinishJob 1, HookOnSuccess 1]"
  by (simp add: twoJobs_def quickJobs_def job_defs queue_defs)

text \<open>
  Claim C2. For every stored job, after \<open>failJobForever\<close> the job is absent from the
  active set, \<open>onPermanentFailure\<close> was invoked exactly once and \<open>getNextJobs\<close> never
  returns the job again. In the same queue, \<open>failJobForever\<close> of job 1 invokes the hook
  once, leaves the job in the storage, and the next \<open>getNextJobs\<close> returns it.
\<close>

theorem failJobForever_keeps_job_at_index_one:
  "jobs twoJobs = [0, 1] \<and> jobs (fst (failJobForever 1 twoJobs)) = [0, 1] \<and>
   events (fst (failJobForever 1 twoJobs)) = [CallFailJobForever 1, HookOnPermanentFailure 1] \<and>
   getNextJobs 0 (fst (failJobForever 1 twoJobs)) = Inr [0, 1]"
  by (simp add: twoJobs_def quickJobs_def job_defs queue_defs)


section \<open>Selection of the next jobs\<close>

lemma jobReadyForProcessing_eligible: "jobReadyForProcessing now j = eligible now j"
  by (auto simp: jobReadyForProcessing_def eligible_def)

text \<open>
  Claim C3, as amended. In every state whose concurrency cap is a whole number from 0
  on, or NaN, \<open>getNextJobs\<close> returns the stored jobs that are eligible (available, not
  still locked, not cancelled), sorted ascending by \<open>availableAt\<close> with ties in
  insertion order, cut to the first \<open>concurrency\<close> jobs; with a falsy cap (0 or NaN) all
  of them are returned. The storage is an array, of at most \<open>2^32 - 1\<close> jobs.
\<close>

theorem getNextJobs_sorted_eligible_capped:
  assumes "concurrency q = NaN \<or> concurrency q = Finite (of_nat n)"
    and "length (jobs q) \<le> 4294967295"
  shows "\<exists>ready.
     mset ready = mset (filter (\<lambda>r. eligible now (heap q r)) (jobs q)) \<and>
     sorted (map (\<lambda>r. availableAt (heap q r)) ready) \<and>
     (\<forall>k. filter (\<lambda>r. availableAt (heap q r) = k) ready =
          filter (\<lambda>r. availableAt (heap q r) = k)
            (filter (\<lambda>r. eligible now (heap q r)) (jobs q))) \<and>
     getNextJobs now q =
       Inr (if concurrency q = NaN \<or> n = 0 then ready else take n ready)"
proof -
  define el where "el = filter (\<lambda>r. eligible now (heap q r)) (jobs q)"
  define ready where "ready = sort_key (\<lambda>r. availableAt (heap q r)) el"
  have perm: "mset ready = mset el"
    by (simp add: ready_def)
  have srt: "sorted (map (\<lambda>r. availableAt (heap q r)) ready)"
    by (simp add: ready_def)
  have stable: "\<forall>k. filter (\<lambda>r. availableAt (heap q r) = k) ready =
                    filter (\<lambda>r. availableAt (heap q r) = k) el"
    by (simp add: ready_def sort_key_stable)
  have "length ready \<le> length (jobs q)"
    by (simp add: ready_def el_def)
  with assms(2) have len: "length ready \<le> 4294967295" by simp
  have unfolded: "getNextJobs now q =
      (if truthy (concurrency q) \<and> js_less (concurrency q) (Finite (of_nat (length ready)))
       then setLength ready (concurrency q) else Inr ready)"
    by (simp add: getNextJobs_def jobReadyForProcessing_eligible ready_def el_def Let_def)
  have res: "getNextJobs now q =
      Inr (if concurrency q = NaN \<or> n = 0 then ready else take n ready)"
  proof (cases "concurrency q = NaN")
    case True
    with unfolded show ?thesis by (simp add: truthy_def)
  next
    case False
    with assms(1) have cap: "concurrency q = Finite (of_nat n)" by simp
    show ?thesis
    proof (cases "n = 0 \<or> length ready \<le> n")
      case True
      with unfolded cap show ?thesis by (auto simp: truthy_def)
    next
      case False
      then have "n < length ready" by simp
      with len have "n \<le> 4294967295" by simp
      then have "(of_nat n :: rat) \<le> 4294967295"
        by (metis of_nat_le_iff of_nat_numeral)
      with unfolded cap False show ?thesis
        by (simp add: truthy_def setLength_def)
    qed
  qed
  from perm srt stable res show ?thesis
    unfolding el_def by blast
qed

text \<open>
  The scenario of the specification: jobs due at 100, 110 and 95, polled at time 100
  with the cap 2.
\<close>

theorem getNextJobs_sorted_eligible_capped_witness:
  "(concurrency scenario = NaN \<or> concurrency scenario = Finite (of_nat 2)) \<and>
   length (jobs scenario) \<le> 4294967295 \<and>
   getNextJobs 100 scenario = Inr [2, 0]"
  using getNextJobs_sorted_eligible_capped [of scenario 2 100]
  by (simp add: scenario_def scenarioJobs_def job_defs queue_defs)

text \<open>
  The claim as stated (every state) fails after \<^verbatim>\<open>setConcurrency(-1)\<close>: the call raises
  a RangeError, even on an empty queue.
\<close>

theorem getNextJobs_negative_cap_counterexample:
  "jobs (setConcurrency (Finite (- 1)) (newMemoryQueue quickJobs)) = [] \<and>
   getNextJobs 0 (setConcurrency (Finite (- 1)) (newMemoryQueue quickJobs)) = Inl RangeError"
  by (simp add: queue_defs)

text \<open>A falsy argument leaves the cap as it is.\<close>

lemma setConcurrency_falsy: "\<not> truthy c \<Longrightarrow> setConcurrency c q = q"
  by (simp add: setConcurrency_def js_or_def)

text \<open>
  A cap that is not a whole number fails in the same way once more jobs are eligible
  than it allows: with two jobs ready, \<^verbatim>\<open>setConcurrency(1.5)\<close> makes the call raise a
  RangeError. With fewer jobs ready than the cap, any cap returns all of them.
\<close>

lemma getNextJobs_fractional_cap:
  "getNextJobs 0 (setConcurrency (Finite (3 / 2)) twoJobs) = Inl RangeError"
  by (simp add: twoJobs_def quickJobs_def job_defs queue_defs)

lemma getNextJobs_cap_not_reached:
  assumes "\<not> js_less (concurrency q) (Finite (of_nat (length (jobs q))))"
    and "concurrency q \<noteq> NaN"
  shows "getNextJobs now q =
           Inr (sort_key (\<lambda>r. availableAt (heap q r))
                  (filter (\<lambda>r. eligible now (heap q r)) (jobs q)))"
proof -
  define ready where
    "ready = sort_key (\<lambda>r. availableAt (heap q r))
               (filter (\<lambda>r. eligible now (heap q r)) (jobs q))"
  have "length ready \<le> length (jobs q)" by (simp add: ready_def)
  then have "(of_nat (length ready) :: rat) \<le> of_nat (length (jobs q))" by simp
  with assms have "\<not> js_less (concurrency q) (Finite (of_nat (length ready)))"
    by (cases "concurrency q") auto
  then show ?thesis
    by (simp add: getNextJobs_def jobReadyForProcessing_eligible ready_def Let_def)
qed


section \<open>Processing one job\<close>

text \<open>
  Claim C4. When \<open>attempts \<ge> maxAttempts\<close> at the call of \<open>processJob\<close>, the scheduler
  calls \<open>failJobForever\<close> and nothing else: the trace grows by that call and its hook,
  with no call of \<^verbatim>\<open>process()\<close> and no timer, and nothing stays outstanding.
\<close>

theorem processJob_exhausted:
  assumes "attempts (heap q job) \<ge> j_maxAttempts (heap q job)"
  shows "processJob job q = ((fst (failJobForever job q), Inr ()), None) \<and>
         events (fst (fst (processJob job q))) =
           events q @ [CallFailJobForever job, HookOnPermanentFailure job]"
  using assms by (simp add: processJob_def triedMaxAttempts_def failJobForever_eq)

theorem processJob_exhausted_witness:
  "attempts (heap exhaustedQueue 0) \<ge> j_maxAttempts (heap exhaustedQueue 0) \<and>
   events (fst (fst (processJob 0 exhaustedQueue))) =
     [CallFailJobForever 0, HookOnPermanentFailure 0] \<and>
   jobs (fst (fst (processJob 0 exhaustedQueue))) = [] \<and>
   snd (processJob 0 exhaustedQueue) = None"
  using processJob_exhausted [of exhaustedQueue 0]
  by (simp add: exhaustedQueue_def job_defs queue_defs)

text \<open>
  Claim C5, as amended. For a dispatched job (attempts left, not cancelled) whose timer
  fires before \<^verbatim>\<open>process()\<close> settles, \<open>processJob\<close> calls \<open>failJob\<close> once, resolves and
  leaves the job stored; when \<^verbatim>\<open>process()\<close> is going to fulfil, its completion stays
  outstanding. That late completion, in whatever state \<open>q'\<close> it runs, does call
  \<open>finishJob\<close>: \<open>onSuccess\<close> is invoked and \<open>removeJobFromQueue\<close> is applied.
\<close>

theorem processJob_timeout_then_late_completion:
  assumes "\<not> triedMaxAttempts (heap q job)" and "\<not> isCancelled (heap q job)"
    and "timerFiresFirst job q"
  shows "events (fst (fst (processJob job q))) =
           events q @ [TimerStarted job (jobTimeout q), CallProcess job,
                       CallFailJob job, HookOnFailure job] \<and>
         jobs (fst (fst (processJob job q))) = jobs q \<and>
         snd (fst (processJob job q)) = Inr () \<and>
         snd (processJob job q) =
           (case process (heap q job) of
              Fulfils d \<Rightarrow> Some job
            | Rejects d \<Rightarrow> None
            | NeverSettles \<Rightarrow> None
            | ThrowsSync m \<Rightarrow> None) \<and>
         events (lateCompletion job q') =
           events q' @ [CallFinishJob job, HookOnSuccess job, TimerCleared job] \<and>
         jobs (lateCompletion job q') = jobs (removeJobFromQueue job q')"
  using assms
  by (cases "process (heap q job)")
     (simp_all add: processJob_def timerFiresFirst_def onRejected_eq lateCompletion_eq Let_def)

theorem processJob_timeout_then_late_completion_witness:
  "\<not> triedMaxAttempts (heap slowQueue 0) \<and> \<not> isCancelled (heap slowQueue 0) \<and>
   timerFiresFirst 0 slowQueue \<and>
   events (fst (fst (processJob 0 slowQueue))) =
     [TimerStarted 0 (Finite 10000), CallProcess 0, CallFailJob 0, HookOnFailure 0] \<and>
   jobs (fst (fst (processJob 0 slowQueue))) = [0] \<and>
   snd (processJob 0 slowQueue) = Some 0"
  using processJob_timeout_then_late_completion [of slowQueue 0 slowQueue]
  by (simp add: slowQueue_def job_defs queue_defs)

text \<open>
  The claim as stated (after a timeout, \<open>finishJob\<close> is not called and \<open>onSuccess\<close> is
  not invoked for that attempt) fails for a job whose \<^verbatim>\<open>process()\<close> fulfils after 20000
  ms under the timeout of 10000 ms: the late completion finishes and removes it.
\<close>

theorem late_completion_finishes_counterexample:
  "timerFiresFirst 0 slowQueue \<and>
   snd (processJob 0 slowQueue) = Some 0 \<and>
   events (lateCompletion 0 (fst (fst (processJob 0 slowQueue)))) =
     [TimerStarted 0 (Finite 10000), CallProcess 0, CallFailJob 0, HookOnFailure 0,
      CallFinishJob 0, HookOnSuccess 0, TimerCleared 0] \<and>
   jobs (lateCompletion 0 (fst (fst (processJob 0 slowQueue)))) = []"
  by (simp add: slowQueue_def job_defs queue_defs)

text \<open>
  Claim C6. A job with \<open>maxAttempts = 1\<close> and \<open>attempts = 0\<close> whose \<^verbatim>\<open>process()\<close> rejects
  is to be failed forever at its next dispatch. In the code the counter is still 0
  after the first \<open>processJob\<close>, the job is offered again by \<open>getNextJobs\<close>, and the
  second \<open>processJob\<close> starts a timer, calls \<^verbatim>\<open>process()\<close> and \<open>failJob\<close> again:
  \<open>failJobForever\<close> is not called.
\<close>

theorem processJob_never_counts_attempts:
  "j_maxAttempts (heap failingQueue 0) = 1 \<and> attempts (heap failingQueue 0) = 0 \<and>
   process (heap failingQueue 0) = Rejects 5 \<and>
   events (fst (fst (processJob 0 failingQueue))) =
     [TimerStarted 0 (Finite 10000), CallProcess 0, CallFailJob 0, HookOnFailure 0] \<and>
   attempts (heap (fst (fst (processJob 0 failingQueue))) 0) = 0 \<and>
   getNextJobs 100 (fst (fst (processJob 0 failingQueue))) = Inr [0] \<and>
   events (fst (fst (processJob 0 (fst (fst (processJob 0 failingQueue)))))) =
     [TimerStarted 0 (Finite 10000), CallProcess 0, CallFailJob 0, HookOnFailure 0,
      TimerStarted 0 (Finite 10000), CallProcess 0, CallFailJob 0, HookOnFailure 0]"
  by (simp add: failingQueue_def job_defs queue_defs)


section \<open>The attempt counter and the lock time\<close>

lemma step_keeps_attempt_fields:
  assumes cj: "\<And>job s k.
      j_attempts (heap (cj job s) k) = j_attempts (heap s k) \<and>
      j_lockedAt (heap (cj job s) k) = j_lockedAt (heap s k) \<and>
      j_maxAttempts (heap (cj job s) k) = j_maxAttempts (heap s k)"
  shows "j_attempts (heap (step cj op q) k) = j_attempts (heap q k) \<and>
         j_lockedAt (heap (step cj op q) k) = j_lockedAt (heap q k) \<and>
         j_maxAttempts (heap (step cj op q) k) = j_maxAttempts (heap q k)"
proof (cases op)
  case (Cancel job)
  then show ?thesis
    by (simp add: cancel_def cj)
qed (simp_all add: insertJob_def heap_processJob lateCompletion_eq failJob_eq
        failJobForever_eq finishJob_eq split: sum.splits)

lemma run_keeps_attempt_fields:
  assumes cj: "\<And>job s k.
      j_attempts (heap (cj job s) k) = j_attempts (heap s k) \<and>
      j_lockedAt (heap (cj job s) k) = j_lockedAt (heap s k) \<and>
      j_maxAttempts (heap (cj job s) k) = j_maxAttempts (heap s k)"
  shows "j_attempts (heap (run cj ops q) k) = j_attempts (heap q k) \<and>
         j_lockedAt (heap (run cj ops q) k) = j_lockedAt (heap q k) \<and>
         j_maxAttempts (heap (run cj ops q) k) = j_maxAttempts (heap q k)"
proof (induction ops arbitrary: q)
  case Nil
  show ?case by simp
next
  case (Cons op ops)
  show ?case
    using Cons.IH [of "step cj op q"] step_keeps_attempt_fields [OF cj]
    by simp
qed

text \<open>
  Claim C7. No operation of the core writes \<open>attempts\<close> or \<open>lockedAt\<close>. A new job
  has both fields 0, and along every history of insert, getNextJobs, processJob (and
  late completions), failJob, failJobForever, finishJob and cancel, a job that starts
  with both fields 0 keeps them 0, \<open>triedMaxAttempts\<close> keeps its value, and the retry
  lock is measured from 0. The
  queue manager's \<^verbatim>\<open>cancelJob\<close>, which \<open>cancel\<close> calls, is assumed to leave \<open>attempts\<close>,
  \<open>lockedAt\<close> and \<open>maxAttempts\<close> of every job alone.
\<close>

theorem attempts_and_lockedAt_never_change:
  assumes cj: "\<And>job s k.
      j_attempts (heap (cancelJob job s) k) = j_attempts (heap s k) \<and>
      j_lockedAt (heap (cancelJob job s) k) = j_lockedAt (heap s k) \<and>
      j_maxAttempts (heap (cancelJob job s) k) = j_maxAttempts (heap s k)"
    and init: "attempts (heap q k) = 0" "lockTime (heap q k) = 0"
  shows "attempts (newJob created p) = 0 \<and> lockTime (newJob created p) = 0 \<and>
         attempts (heap (run cancelJob ops q) k) = 0 \<and>
         lockTime (heap (run cancelJob ops q) k) = 0 \<and>
         triedMaxAttempts (heap (run cancelJob ops q) k) = triedMaxAttempts (heap q k) \<and>
         isStillLocked now (heap (run cancelJob ops q) k) =
           (now < j_retryWaitInMillis (heap (run cancelJob ops q) k))"
  using run_keeps_attempt_fields [OF cj] init
  by (simp add: attempts_def lockTime_def triedMaxAttempts_def isStillLocked_def newJob_def)

theorem attempts_and_lockedAt_never_change_witness:
  "attempts (heap failingQueue 0) = 0 \<and> lockTime (heap failingQueue 0) = 0 \<and>
   attempts (heap (run dropJob exampleHistory failingQueue) 0) = 0 \<and>
   lockTime (heap (run dropJob exampleHistory failingQueue) 0) = 0 \<and>
   \<not> triedMaxAttempts (heap (run dropJob exampleHistory failingQueue) 0)"
proof -
  have cj: "\<And>job s k.
      j_attempts (heap (dropJob job s) k) = j_attempts (heap s k) \<and>
      j_lockedAt (heap (dropJob job s) k) = j_lockedAt (heap s k) \<and>
      j_maxAttempts (heap (dropJob job s) k) = j_maxAttempts (heap s k)"
    by (simp add: dropJob_def)
  have init: "attempts (heap failingQueue 0) = 0" "lockTime (heap failingQueue 0) = 0"
    by (simp_all add: failingQueue_def job_defs queue_defs)
  have tried: "\<not> triedMaxAttempts (heap failingQueue 0)"
    by (simp add: failingQueue_def job_defs queue_defs)
  show ?thesis
    using attempts_and_lockedAt_never_change
      [where cancelJob = dropJob and q = failingQueue and k = 0 and ops = exampleHistory,
       OF cj init]
      init tried
    by simp
qed


section \<open>The retry lock\<close>

text \<open>
  Claim C8, as amended. A job with \<open>lockedAt = 0\<close> is still locked exactly when the
  current time is below its retry wait; so it is not locked whenever the retry wait does
  not exceed the current time, as for the default retry wait 0 at any time from 0 on.
\<close>

theorem isStillLocked_never_attempted:
  "lockTime j = 0 \<Longrightarrow> isStillLocked now j = (now < j_retryWaitInMillis j)"
  by (simp add: isStillLocked_def lockTime_def)

theorem isStillLocked_never_attempted_witness:
  "lockTime (newJob 1700000000000 NeverSettles) = 0 \<and>
   isStillLocked 1700000000000 (newJob 1700000000000 NeverSettles) = False"
  using isStillLocked_never_attempted [of "newJob 1700000000000 NeverSettles" 1700000000000]
  by (simp add: newJob_def lockTime_def)

text \<open>
  The claim as stated (never locked, for every retry wait and every time) fails for a
  job created with \<^verbatim>\<open>retryAfter(2000000000)\<close> and never attempted. The setter stores
  \<^verbatim>\<open>Math.trunc(seconds * 1000)\<close>, here the whole number 2000000000000.
\<close>

theorem isStillLocked_long_retry_wait_counterexample:
  "Math_trunc (js_times (Finite 2000000000) (Finite 1000)) = Finite 2000000000000 \<and>
   lockTime ((newJob 1700000000000 NeverSettles)\<lparr>j_retryWaitInMillis := 2000000000000\<rparr>) = 0 \<and>
   isStillLocked 1700000000000
     ((newJob 1700000000000 NeverSettles)\<lparr>j_retryWaitInMillis := 2000000000000\<rparr>)"
  by (simp add: job_defs Math_trunc_def double_defs)


section \<open>Errors of the outcome hooks\<close>

text \<open>
  Whatever a hook does, the outcome operations complete: the storage is what
  \<open>removeJobFromQueue\<close> made of it (untouched by \<open>failJob\<close>), the promises resolve, and
  the promise of \<open>processJob\<close> resolves. A hook that throws at the call is caught by
  \<open>raiseEvent\<close>, and nothing is left unhandled.
\<close>

lemma outcome_operations_complete:
  "snd (finishJob job q) = Inr True \<and>
   jobs (fst (finishJob job q)) = jobs (removeJobFromQueue job q) \<and>
   snd (failJobForever job q) = Inr () \<and>
   jobs (fst (failJobForever job q)) = jobs (removeJobFromQueue job q) \<and>
   snd (failJob job q) = Inr True \<and>
   jobs (fst (failJob job q)) = jobs q \<and>
   snd (fst (processJob job q)) = Inr ()"
  by (simp add: finishJob_eq failJobForever_eq failJob_eq settled_processJob)

lemma thrown_hook_error_is_caught:
  "raiseEvent ev (HookThrows m) q = (q\<lparr>events := events q @ [ev]\<rparr>, Inr Undefined) \<and>
   dropValue Undefined q = q"
  by (simp add: raiseEvent_eq raisedValue_def dropValue_def)

lemma thrown_hook_errors_leave_nothing_unhandled:
  "unhandledRejections (fst (finishJob 0 throwingQueue)) = [] \<and>
   unhandledRejections (fst (failJobForever 0 throwingQueue)) = [] \<and>
   unhandledRejections (fst (failJob 0 throwingQueue)) = []"
  by (simp add: throwingQueue_def job_defs queue_defs)

text \<open>
  Claim C9. Every error raised by an outcome hook is caught and discarded at the call
  site, without keeping the outcome from completing. The hooks of \<^verbatim>\<open>BaseJob\<close> are async
  functions, and \<open>raiseEvent\<close> only catches what is thrown at the call: for a job whose
  \<open>onSuccess\<close> returns a promise that rejects, \<open>raiseEvent\<close> hands the rejected promise to
  \<open>finishJob\<close>, which drops it. The job is removed and \<open>finishJob\<close> resolves, but the
  error is not caught: it is left as an unhandled rejection.
\<close>

theorem async_hook_rejection_is_not_caught:
  "onSuccess (heap rejectingQueue 0) = HookRejects ''success hook'' \<and>
   snd (raiseEvent (HookOnSuccess 0) (onSuccess (heap rejectingQueue 0)) rejectingQueue) =
     Inr (PromiseRejected ''success hook'') \<and>
   unhandledRejections (fst (finishJob 0 rejectingQueue)) = [''success hook''] \<and>
   jobs (fst (finishJob 0 rejectingQueue)) = [] \<and>
   snd (finishJob 0 rejectingQueue) = Inr True"
  by (simp add: rejectingQueue_def job_defs queue_defs)


section \<open>The per-job timeout setting\<close>

text \<open>The timeout of a new queue is a whole number, and \<open>setTimeout\<close> keeps it whole.\<close>

lemma Math_trunc_idem: "Math_trunc (Math_trunc x) = Math_trunc x"
  by (cases x) (simp_all add: Math_trunc_def)

lemma jobTimeout_whole:
  "Math_trunc (jobTimeout (newMemoryQueue h)) = jobTimeout (newMemoryQueue h)"
  "Math_trunc (jobTimeout (setTimeout s q)) = jobTimeout (setTimeout s q)"
  by (simp_all add: newMemoryQueue_def setTimeout_def Math_trunc_idem)
     (simp add: Math_trunc_def)

text \<open>
  Claim C10, as amended. For every number \<open>s\<close>, \<open>setTimeout s\<close> keeps the previous
  timeout when \<open>s\<close> is zero or NaN, and sets it to \<open>trunc (s * 1000)\<close> milliseconds, the
  product being the double product, for every other \<open>s\<close>, negative ones included.
\<close>

theorem setTimeout_nonzero:
  assumes "isDouble s" and "Math_trunc (jobTimeout q) = jobTimeout q"
  shows "jobTimeout (setTimeout s q) =
           (if s = NaN \<or> s = Finite 0 then jobTimeout q
            else Math_trunc (js_times s (Finite 1000)))"
  using product_by_1000_truthy [OF assms(1)] assms(2)
  by (simp add: setTimeout_def js_or_def)

text \<open>
  At the literals \<^verbatim>\<open>4.35\<close> and \<^verbatim>\<open>1.001\<close> the double products are 4350 and
  1000.9999999999999.
\<close>

theorem setTimeout_nonzero_witness:
  "isDouble (Finite (2448832297382707 / 562949953421312)) \<and>
   isDouble (Finite (2254051613498933 / 2251799813685248)) \<and>
   Math_trunc (jobTimeout (newMemoryQueue quickJobs)) = jobTimeout (newMemoryQueue quickJobs) \<and>
   jobTimeout (setTimeout (Finite (2448832297382707 / 562949953421312))
     (newMemoryQueue quickJobs)) = Finite 4350 \<and>
   jobTimeout (setTimeout (Finite (2254051613498933 / 2251799813685248))
     (newMemoryQueue quickJobs)) = Finite 1000 \<and>
   jobTimeout (setTimeout (Finite 0) (newMemoryQueue quickJobs)) = Finite 10000 \<and>
   jobTimeout (setTimeout NaN (newMemoryQueue quickJobs)) = Finite 10000"
proof -
  have d1: "isDouble (Finite (2448832297382707 / 562949953421312))"
    by (simp add: isDouble_def double_defs)
  have d2: "isDouble (Finite (2254051613498933 / 2251799813685248))"
    by (simp add: isDouble_def double_defs)
  have d3: "isDouble (Finite 0)" "isDouble NaN"
    by (simp_all add: isDouble_def toDouble_zero)
  have whole: "Math_trunc (jobTimeout (newMemoryQueue quickJobs)) =
                 jobTimeout (newMemoryQueue quickJobs)"
    by (rule jobTimeout_whole)
  have old: "jobTimeout (newMemoryQueue quickJobs) = Finite 10000"
    by (simp add: newMemoryQueue_def)
  have "js_times (Finite (2448832297382707 / 562949953421312)) (Finite 1000) = Finite 4350"
    by (simp only: js_times.simps toDouble_examples)
  then have p1:
    "Math_trunc (js_times (Finite (2448832297382707 / 562949953421312)) (Finite 1000)) =
       Finite 4350"
    by (simp add: Math_trunc_def)
  have "js_times (Finite (2254051613498933 / 2251799813685248)) (Finite 1000) =
          Finite (8804889115230207 / 8796093022208)"
    by (simp only: js_times.simps toDouble_examples)
  then have p2:
    "Math_trunc (js_times (Finite (2254051613498933 / 2251799813685248)) (Finite 1000)) =
       Finite 1000"
    by (simp add: Math_trunc_def)
  show ?thesis
    using setTimeout_nonzero [OF d1 whole] setTimeout_nonzero [OF d2 whole]
      setTimeout_nonzero [OF d3(1) whole] setTimeout_nonzero [OF d3(2) whole]
      d1 d2 whole old p1 p2
    by simp
qed

text \<open>
  The claim as stated (a non-positive argument is ignored) fails at \<open>s = -1\<close>: the
  timeout of a new queue goes from 10000 to -1000.
\<close>

theorem setTimeout_negative_counterexample:
  "isDouble (Finite (- 1)) \<and>
   jobTimeout (newMemoryQueue quickJobs) = Finite 10000 \<and>
   jobTimeout (setTimeout (Finite (- 1)) (newMemoryQueue quickJobs)) = Finite (- 1000)"
  by (simp add: setTimeout_def newMemoryQueue_def number_defs double_defs)

end
